theory Spec2Isabelle
  imports Main "HOL-Library.Multiset"
begin

section \<open>GroupEng controller: the data that \<open>run\<close> handles\<close>

text \<open>
  The development embeds \<^verbatim>\<open>controller.py\<close> of GroupEng. Its function \<^verbatim>\<open>run\<close> reads
  an input deck, builds a course and its rules, asks the initial partitioner for groups,
  puts the phantom rule in front of the user's rules, runs the rule engine, tests the
  phantom rule, strips the phantoms and writes the output files.

  Attribute values of a student are strings or numbers; the only value \<^verbatim>\<open>run\<close>
  itself inspects is the string \<^verbatim>\<open>'phantom'\<close>.
\<close>

datatype val = Str string | Num int

text \<open>
  A student, as far as \<^verbatim>\<open>run\<close> reads one: \<^verbatim>\<open>s.identifier\<close> (the name of
  the identifying attribute) and the dictionary \<^verbatim>\<open>s.data\<close>, kept as an association
  list and read with \<^const>\<open>map_of\<close>.
\<close>

record student =
  s_identifier :: string
  data :: "(string \<times> val) list"

text \<open>A group: \<^verbatim>\<open>g.group_number\<close> and the membership list \<^verbatim>\<open>g.students\<close>.\<close>

record group =
  group_number :: int
  members :: "student list"

text \<open>
  Modelled from the spec: class \<^verbatim>\<open>Course\<close> (course.py is not part of the sources).
  It holds the roster \<^verbatim>\<open>course.students\<close>, the target group size (an integer)
  and the uneven-size policy token (\<^verbatim>\<open>None\<close> when the deck has none).
\<close>

record course =
  students :: "student list"
  group_size :: int
  uneven_size :: "string option"

text \<open>
  The parsed input deck, a dictionary. A key read with \<^verbatim>\<open>dek[...]\<close> raises
  \<^verbatim>\<open>KeyError\<close> when absent, a key read with \<^verbatim>\<open>dek.get(...)\<close> gives
  \<^verbatim>\<open>None\<close>; both are \<^const>\<open>None\<close> here. \<open>'d\<close> is the type of a rule
  descriptor.
\<close>

record 'd dek =
  dek_classlist :: "string option"
  dek_student_identifier :: "string option"
  dek_group_size :: "int option"
  dek_uneven_size :: "string option"
  dek_rules :: "'d list option"

text \<open>
  The exceptions: the two classes of controller.py (\<^verbatim>\<open>InputDeckError\<close> is
  declared there and raised nowhere in \<^verbatim>\<open>run\<close>), the built-in ones that
  \<^verbatim>\<open>run\<close>'s own subscripts raise, and \<open>Raised\<close> for whatever a collaborator
  raises (named by a string). \<^verbatim>\<open>UnevenGroups\<close> is raised without arguments and
  has no fields.
\<close>

datatype error =
    InputDeckError string
  | UnevenGroups
  | KeyError string
  | IndexError
  | Raised string

text \<open>
  The local variables of \<^verbatim>\<open>run\<close> that are live after line 73.
  \<open>st_students\<close> is the list \<^verbatim>\<open>load_classlist\<close> returned (line 55), as returned,
  \<open>st_balance_rules\<close> what is left in the iterator \<^verbatim>\<open>balance_rules\<close>.
\<close>

record 'r state =
  st_students :: "student list"
  st_identifier :: string
  st_course :: course
  st_rules :: "'r list"
  st_groups :: "group list"
  st_suceeded :: bool
  st_balance_rules :: "'r list"

text \<open>
  An item of a group's line in the section Group Summaries of the statistics report:
  \<^verbatim>\<open>'<{0} Mean: {1:3.2f}>'\<close> for a Balance rule (line 141) or
  \<^verbatim>\<open>'Failed {0}'\<close> for a rule whose check fails (line 145). The item keeps the
  rule; the formatting is left to the collaborator that writes the files.
\<close>

datatype 'r item = Mean_item 'r | Failed_item 'r

text \<open>
  The collaborators of \<^verbatim>\<open>run\<close> live in modules that are not part of the sources
  (input_parser, student, course, rule, group) or are the file system. They are the
  parameters of the model. A collaborator whose result is a sum may raise (\<open>Inl\<close>, with the
  name of the exception). \<open>'r\<close> is the type of a rule object.

  \<^item> \<open>make_initial_groups\<close> receives the course and the lazy iterator
    \<^verbatim>\<open>filter(lambda x: isinstance(x, Balance), rules)\<close>. It returns the groups, the
    course as it left it (phantoms added) and how many elements it drew from the
    iterator.
  \<^item> \<open>apply_rules_list\<close> receives the rule list, the groups and the list
    \<^verbatim>\<open>course.students\<close>; it works in place, so it returns its flag together with
    the groups and the student list as it left them. The rule list is taken to come back
    as it went in.
  \<^item> \<open>check\<close> is \<^verbatim>\<open>r.check(g)\<close>. A rule object is built from the course and
    keeps a reference to it, so the course as it is at the time of the call is the first
    argument. The check is taken to return a boolean and to change nothing.
  \<^item> \<open>write_files\<close> stands for the directory and the files of lines 93 to 151. It
    receives the name of the deck, the local variables, the failure counts of lines 117
    and 118 and the items of the group summaries, and returns the output directory.
\<close>

record ('d, 'r) collaborators =
  read_input :: "string \<Rightarrow> string + 'd dek"
  load_classlist :: "string \<Rightarrow> string option \<Rightarrow> string + student list"
  Course :: "student list \<Rightarrow> int \<Rightarrow> string option \<Rightarrow> string + course"
  make_rule :: "'d \<Rightarrow> course \<Rightarrow> string + 'r"
  isinstance_Balance :: "'r \<Rightarrow> bool"
  Distribute :: "string \<Rightarrow> course \<Rightarrow> string \<Rightarrow> string + 'r"
  make_initial_groups :: "course \<Rightarrow> 'r list \<Rightarrow> string + (group list \<times> course \<times> nat)"
  apply_rules_list ::
    "'r list \<Rightarrow> group list \<Rightarrow> student list \<Rightarrow> string + (bool \<times> group list \<times> student list)"
  check :: "course \<Rightarrow> 'r \<Rightarrow> group \<Rightarrow> bool"
  write_files ::
    "string \<Rightarrow> 'r state \<Rightarrow> ('r \<times> int) list \<Rightarrow> (int \<times> 'r item list) list \<Rightarrow>
     string + string"

section \<open>Exceptions as values\<close>

text \<open>Sequencing: an exception of the first step ends the run, a value goes on.\<close>

fun and_then :: "error + 'a \<Rightarrow> ('a \<Rightarrow> error + 'b) \<Rightarrow> error + 'b" where
  "and_then (Inl e) f = Inl e"
| "and_then (Inr x) f = f x"

text \<open>A call of a collaborator: what it raises leaves \<^verbatim>\<open>run\<close> unhandled.\<close>

fun call :: "string + 'a \<Rightarrow> error + 'a" where
  "call (Inl x) = Inl (Raised x)"
| "call (Inr v) = Inr v"

text \<open>\<^verbatim>\<open>d[key]\<close> on a dictionary.\<close>

fun subscript :: "string \<Rightarrow> 'a option \<Rightarrow> error + 'a" where
  "subscript k None = Inl (KeyError k)"
| "subscript k (Some x) = Inr x"

section \<open>\<open>run\<close>, lines 53 to 73: from the deck to the enforced groups\<close>

text \<open>Lines 53 to 57.\<close>

definition load_course ::
  "('d, 'r) collaborators \<Rightarrow> string \<Rightarrow> error + ('d dek \<times> student list \<times> string \<times> course)" where
  "load_course E input_deck =
     and_then (call (read_input E input_deck)) (\<lambda>dek.
     and_then (subscript ''classlist'' (dek_classlist dek)) (\<lambda>classlist.
     and_then (call (load_classlist E classlist (dek_student_identifier dek))) (\<lambda>studs.
     and_then (case studs of [] \<Rightarrow> Inl IndexError | s0 # _ \<Rightarrow> Inr (s_identifier s0)) (\<lambda>ident.
     and_then (subscript ''group_size'' (dek_group_size dek)) (\<lambda>gsize.
     and_then (call (Course E studs gsize (dek_uneven_size dek))) (\<lambda>c.
       Inr (dek, studs, ident, c)))))))"

text \<open>Line 59: \<^verbatim>\<open>[make_rule(r, course) for r in dek['rules']]\<close>.\<close>

fun make_rules :: "('d, 'r) collaborators \<Rightarrow> 'd list \<Rightarrow> course \<Rightarrow> error + 'r list" where
  "make_rules E [] c = Inr []"
| "make_rules E (d # ds) c =
     and_then (call (make_rule E d c)) (\<lambda>r.
     and_then (make_rules E ds c) (\<lambda>rs. Inr (r # rs)))"

text \<open>
  Lines 53 to 73. The iterator of line 61 is lazy: nothing is drawn from it before
  \<^verbatim>\<open>make_initial_groups\<close> does, and what that call leaves is all later loops can
  still draw. Line 69 builds a new list, so the iterator keeps ranging over the user's
  rules. Line 73 sorts the groups by number (Python's sort is stable, as
  \<^const>\<open>sort_key\<close> is).
\<close>

definition enforce :: "('d, 'r) collaborators \<Rightarrow> string \<Rightarrow> error + 'r state" where
  "enforce E input_deck =
     and_then (load_course E input_deck) (\<lambda>(dek, studs, ident, c).
     and_then (subscript ''rules'' (dek_rules dek)) (\<lambda>descriptors.
     and_then (make_rules E descriptors c) (\<lambda>rules0.
     and_then (call (make_initial_groups E c (filter (isinstance_Balance E) rules0)))
       (\<lambda>(groups, c1, drawn).
     and_then (call (Distribute E ident c1 ''phantom'')) (\<lambda>phantom_rule.
     and_then (call (apply_rules_list E (phantom_rule # rules0) groups (students c1)))
       (\<lambda>(suceeded, groups1, studs1).
       Inr \<lparr>st_students = studs, st_identifier = ident,
            st_course = c1\<lparr>students := studs1\<rparr>,
            st_rules = phantom_rule # rules0,
            st_groups = sort_key group_number groups1,
            st_suceeded = suceeded,
            st_balance_rules = drop drawn (filter (isinstance_Balance E) rules0)\<rparr>))))))"

section \<open>\<open>run\<close>, lines 76 to 87: the phantom test and the stripping\<close>

text \<open>
  Lines 76 and 77: \<^verbatim>\<open>sum(1 - r.check(g) for g in groups)\<close>. Python reads the
  boolean as 0 or 1.
\<close>

definition failures :: "('r \<Rightarrow> group \<Rightarrow> bool) \<Rightarrow> group list \<Rightarrow> 'r \<Rightarrow> int" where
  "failures chk groups r = sum_list (map (\<lambda>g. 1 - of_bool (chk r g)) groups)"

text \<open>
  The comprehension \<^verbatim>\<open>[s for s in xs if s.data[identifier] != 'phantom']\<close>; the
  subscript raises \<^verbatim>\<open>KeyError\<close> at the first student without the attribute.
\<close>

fun strip_phantoms :: "string \<Rightarrow> student list \<Rightarrow> error + student list" where
  "strip_phantoms ident [] = Inr []"
| "strip_phantoms ident (s # ss) =
     and_then (subscript ident (map_of (data s) ident)) (\<lambda>v.
     and_then (strip_phantoms ident ss) (\<lambda>rest.
       Inr (if v \<noteq> Str ''phantom'' then s # rest else rest)))"

text \<open>Lines 83 to 85, group by group.\<close>

fun strip_groups :: "string \<Rightarrow> group list \<Rightarrow> error + group list" where
  "strip_groups ident [] = Inr []"
| "strip_groups ident (g # gs) =
     and_then (strip_phantoms ident (members g)) (\<lambda>ms.
     and_then (strip_groups ident gs) (\<lambda>rest.
       Inr (g\<lparr>members := ms\<rparr> # rest)))"

text \<open>Lines 79 and 80: \<^verbatim>\<open>rules[0]\<close> is tested, and only it.\<close>

definition uneven_test :: "('d, 'r) collaborators \<Rightarrow> 'r state \<Rightarrow> error + 'r state" where
  "uneven_test E st =
     (case st_rules st of
        [] \<Rightarrow> Inl IndexError
      | r0 # _ \<Rightarrow>
          if failures (check E (st_course st)) (st_groups st) r0 \<noteq> 0
          then Inl UnevenGroups else Inr st)"

text \<open>Lines 82 to 87.\<close>

definition strip :: "'r state \<Rightarrow> error + 'r state" where
  "strip st =
     and_then (strip_groups (st_identifier st) (st_groups st)) (\<lambda>groups.
     and_then (strip_phantoms (st_identifier st) (students (st_course st))) (\<lambda>studs.
       Inr (st\<lparr>st_groups := groups, st_course := (st_course st)\<lparr>students := studs\<rparr>\<rparr>)))"

section \<open>\<open>run\<close>, lines 93 to 153: the report and the result\<close>

text \<open>
  Lines 137 to 147, the items of the section Group Summaries, one list per group.
  The inner loop \<^verbatim>\<open>for r in balance_rules\<close> draws from the iterator of line 61:
  the first group takes whatever is left of it, every later group finds it exhausted.
\<close>

fun group_summaries ::
  "('r \<Rightarrow> group \<Rightarrow> bool) \<Rightarrow> 'r list \<Rightarrow> 'r list \<Rightarrow> group list \<Rightarrow> (int \<times> 'r item list) list" where
  "group_summaries chk rules balance_rules [] = []"
| "group_summaries chk rules balance_rules (g # gs) =
     (group_number g,
      map Mean_item balance_rules @ map Failed_item (filter (\<lambda>r. \<not> chk r g) rules))
     # group_summaries chk rules [] gs"

definition summaries :: "('d, 'r) collaborators \<Rightarrow> 'r state \<Rightarrow> (int \<times> 'r item list) list" where
  "summaries E st =
     group_summaries (check E (st_course st)) (st_rules st) (st_balance_rules st) (st_groups st)"

text \<open>Lines 117 and 118: the failure count of every rule but the first.\<close>

definition rule_failures :: "('d, 'r) collaborators \<Rightarrow> 'r state \<Rightarrow> ('r \<times> int) list" where
  "rule_failures E st =
     map (\<lambda>r. (r, failures (check E (st_course st)) (st_groups st) r)) (tl (st_rules st))"

text \<open>Lines 53 to 87: everything before the output.\<close>

definition run_groups :: "('d, 'r) collaborators \<Rightarrow> string \<Rightarrow> error + 'r state" where
  "run_groups E input_deck = and_then (and_then (enforce E input_deck) (uneven_test E)) strip"

text \<open>The whole of \<^verbatim>\<open>run\<close>: it returns \<^verbatim>\<open>groups, suceeded, outdir\<close>.\<close>

definition run ::
  "('d, 'r) collaborators \<Rightarrow> string \<Rightarrow> error + (group list \<times> bool \<times> string)" where
  "run E input_deck =
     and_then (run_groups E input_deck) (\<lambda>st.
     and_then (call (write_files E input_deck st (rule_failures E st) (summaries E st)))
       (\<lambda>outdir.
       Inr (st_groups st, st_suceeded st, outdir)))"

section \<open>Predicates used in the statements\<close>

text \<open>
  A phantom, as lines 84 and 87 recognise one: the identifying attribute has the value
  \<^verbatim>\<open>'phantom'\<close>.
\<close>

definition is_phantom :: "string \<Rightarrow> student \<Rightarrow> bool" where
  "is_phantom ident s = (map_of (data s) ident = Some (Str ''phantom''))"

text \<open>An item of the form \<^verbatim>\<open><attribute Mean: value>\<close> (line 141).\<close>

fun is_Mean_item :: "'r item \<Rightarrow> bool" where
  "is_Mean_item (Mean_item r) = True"
| "is_Mean_item (Failed_item r) = False"

section \<open>The initial partitioner, from the spec\<close>

text \<open>
  Modelled from the spec: \<^verbatim>\<open>make_initial_groups\<close> (group.py is not part of the
  sources). Section 4.2 of the spec gives its steps:
  \<^enum> the group count is the ceiling, or the floor, of roster size over group size,
    as the uneven-size policy says (\<open>round_up\<close> here: the spec does not list the tokens
    of the policy);
  \<^enum> phantoms are injected, their count being group count times group size minus roster
    size (a count below zero injects nothing);
  \<^enum> the students are sorted by the strength of each Balance rule and dealt round-robin:
    position \<open>i\<close> of the seeded list goes to group \<open>i mod k\<close>;
  \<^enum> the groups are numbered from 1.
  It fails with a configuration error when the group size is not positive or exceeds the
  size of the padded roster. The spec does not say what the floor does with a roster that
  is not a multiple of the group size; nothing below depends on that case beyond the
  configuration error.
\<close>

text \<open>Modelled from the spec: the group count of step 1, for a positive group size \<open>g\<close>.\<close>

definition group_count :: "bool \<Rightarrow> nat \<Rightarrow> nat \<Rightarrow> nat" where
  "group_count round_up n g = (if round_up then (n + g - 1) div g else n div g)"

text \<open>Modelled from the spec: the phantom count of step 2, as the spec's formula gives it.\<close>

definition phantoms_needed :: "bool \<Rightarrow> nat \<Rightarrow> nat \<Rightarrow> int" where
  "phantoms_needed round_up n g = int (group_count round_up n g) * int g - int n"

text \<open>Modelled from the spec: the roster size after phantom padding.\<close>

definition padded_size :: "bool \<Rightarrow> nat \<Rightarrow> nat \<Rightarrow> nat" where
  "padded_size round_up n g = n + nat (phantoms_needed round_up n g)"

text \<open>
  Modelled from the spec: a phantom Student Record, whose identifying attribute has the
  reserved value and which carries no other data.
\<close>

definition make_phantom :: "student list \<Rightarrow> student" where
  "make_phantom roster =
     (let ident = (case roster of [] \<Rightarrow> [] | s0 # _ \<Rightarrow> s_identifier s0)
      in \<lparr>s_identifier = ident, data = [(ident, Str ''phantom'')]\<rparr>)"

text \<open>Modelled from the spec: the seeding order of step 3, one stable sort per Balance rule.\<close>

definition seed ::
  "('r \<Rightarrow> student \<Rightarrow> int) \<Rightarrow> 'r list \<Rightarrow> student list \<Rightarrow> student list" where
  "seed strength balance_rules roster = fold (\<lambda>r. sort_key (strength r)) balance_rules roster"

text \<open>Modelled from the spec: dealing round-robin into \<open>k\<close> groups (step 3).\<close>

definition deal :: "nat \<Rightarrow> 'a list \<Rightarrow> 'a list list" where
  "deal k xs = map (\<lambda>j. map (nth xs) (filter (\<lambda>i. i mod k = j) [0..<length xs])) [0..<k]"

text \<open>Modelled from the spec: numbering the groups from 1 (step 4).\<close>

definition number_groups :: "student list list \<Rightarrow> group list" where
  "number_groups piles =
     map (\<lambda>(j, ms). \<lparr>group_number = int j + 1, members = ms\<rparr>) (enumerate 0 piles)"

text \<open>
  Modelled from the spec: \<^verbatim>\<open>make_initial_groups\<close> as a whole. It draws every
  element of the iterator of Balance rules and leaves the phantoms in the course.
\<close>

definition spec_make_initial_groups ::
  "bool \<Rightarrow> ('r \<Rightarrow> student \<Rightarrow> int) \<Rightarrow> course \<Rightarrow> 'r list \<Rightarrow>
   string + (group list \<times> course \<times> nat)" where
  "spec_make_initial_groups round_up strength c balance_rules =
     (if group_size c \<le> 0 then Inl ''ConfigurationError''
      else
        let n = length (students c);
            g = nat (group_size c);
            phantoms = replicate (nat (phantoms_needed round_up n g)) (make_phantom (students c));
            padded = seed strength balance_rules (students c) @ phantoms
        in if length padded < g then Inl ''ConfigurationError''
           else Inr (number_groups (deal (group_count round_up n g) padded),
                     c\<lparr>students := students c @ phantoms\<rparr>,
                     length balance_rules))"

section \<open>The rule engine, from the spec\<close>

text \<open>
  Modelled from the spec: what \<^verbatim>\<open>apply_rules_list\<close> (rule.py is not part of the
  sources) may do to the groups. By sections 4.1 and 4.3 of the spec, enforcement changes
  membership only by taking a student out of one group's list and putting the same
  student into another group's list, both lists being updated together; a swap is two
  such moves. One move, with the giving group before or after the receiving one:
\<close>

inductive move :: "group list \<Rightarrow> group list \<Rightarrow> bool" where
  move_down: "members g = xs @ s # ys \<Longrightarrow> members h = us @ vs \<Longrightarrow>
     move (pre @ g # mid @ h # post)
          (pre @ g\<lparr>members := xs @ ys\<rparr> # mid @ h\<lparr>members := us @ s # vs\<rparr> # post)"
| move_up: "members g = xs @ s # ys \<Longrightarrow> members h = us @ vs \<Longrightarrow>
     move (pre @ h # mid @ g # post)
          (pre @ h\<lparr>members := us @ s # vs\<rparr> # mid @ g\<lparr>members := xs @ ys\<rparr> # post)"

text \<open>Modelled from the spec: any number of moves, one after the other.\<close>

inductive moves :: "group list \<Rightarrow> group list \<Rightarrow> bool" where
  stay: "moves gs gs"
| then_move: "moves gs gs' \<Longrightarrow> move gs' gs'' \<Longrightarrow> moves gs gs''"

section \<open>Example collaborators and inputs\<close>

text \<open>
  Concrete collaborators on which the model is run: two kinds of rule, a class list
  with a numeric attribute, a partitioner that hands out fixed groups, and a rule engine
  that leaves the groups as they are and reports whether every rule holds on every group.
  The check of a Distribute rule is the one the spec describes: at most one member of the
  group has the target value.
\<close>

datatype descriptor = Balance_desc string | Distribute_desc string string

datatype rule = Balance_rule string | Distribute_rule string string

definition pupil :: "string \<Rightarrow> int \<Rightarrow> student" where
  "pupil name gpa = \<lparr>s_identifier = ''ID'', data = [(''ID'', Str name), (''gpa'', Num gpa)]\<rparr>"

definition phantom :: student where
  "phantom = \<lparr>s_identifier = ''ID'', data = [(''ID'', Str ''phantom'')]\<rparr>"

fun example_check :: "rule \<Rightarrow> group \<Rightarrow> bool" where
  "example_check (Distribute_rule a v) g =
     (length (filter (\<lambda>s. map_of (data s) a = Some (Str v)) (members g)) \<le> 1)"
| "example_check (Balance_rule a) g =
     list_all (\<lambda>s. map_of (data s) a \<noteq> Some (Num 1)) (members g)"

fun example_is_Balance :: "rule \<Rightarrow> bool" where
  "example_is_Balance (Balance_rule a) = True"
| "example_is_Balance (Distribute_rule a v) = False"

fun example_make_rule :: "descriptor \<Rightarrow> rule" where
  "example_make_rule (Balance_desc a) = Balance_rule a"
| "example_make_rule (Distribute_desc a v) = Distribute_rule a v"

definition example ::
  "student list \<Rightarrow> int \<Rightarrow> group list \<Rightarrow> student list \<Rightarrow> (descriptor, rule) collaborators" where
  "example roster gsize groups phantoms =
     \<lparr>read_input = (\<lambda>deck. Inr \<lparr>dek_classlist = Some ''class.csv'',
                                  dek_student_identifier = Some ''ID'',
                                  dek_group_size = Some gsize,
                                  dek_uneven_size = None,
                                  dek_rules = Some [Balance_desc ''gpa'',
                                                    Distribute_desc ''gpa'' ''high'',
                                                    Balance_desc ''age'']\<rparr>),
      load_classlist = (\<lambda>file ident. Inr roster),
      Course = (\<lambda>studs gsize policy.
         Inr \<lparr>students = studs, group_size = gsize, uneven_size = policy\<rparr>),
      make_rule = (\<lambda>d c. Inr (example_make_rule d)),
      isinstance_Balance = example_is_Balance,
      Distribute = (\<lambda>attribute c v. Inr (Distribute_rule attribute v)),
      make_initial_groups = (\<lambda>c balance_rules.
         Inr (groups, c\<lparr>students := students c @ phantoms\<rparr>, length balance_rules)),
      apply_rules_list = (\<lambda>rules gs studs.
         Inr (list_all (\<lambda>r. list_all (example_check r) gs) rules, gs, studs)),
      check = (\<lambda>c. example_check),
      write_files = (\<lambda>deck st counts items. Inr (''groups_'' @ deck))\<rparr>"

text \<open>Three students in groups of two: one phantom, which fills the second group.\<close>

definition trio :: "(descriptor, rule) collaborators" where
  "trio = example [pupil ''ann'' 4, pupil ''bob'' 1, pupil ''cy'' 3] 2
            [\<lparr>group_number = 2, members = [pupil ''cy'' 3, phantom]\<rparr>,
             \<lparr>group_number = 1, members = [pupil ''ann'' 4, pupil ''bob'' 1]\<rparr>]
            [phantom]"

definition trio_enforced :: "rule state" where
  "trio_enforced =
     \<lparr>st_students = [pupil ''ann'' 4, pupil ''bob'' 1, pupil ''cy'' 3],
      st_identifier = ''ID'',
      st_course = \<lparr>students = [pupil ''ann'' 4, pupil ''bob'' 1, pupil ''cy'' 3, phantom],
                   group_size = 2, uneven_size = None\<rparr>,
      st_rules = [Distribute_rule ''ID'' ''phantom'', Balance_rule ''gpa'',
                  Distribute_rule ''gpa'' ''high'', Balance_rule ''age''],
      st_groups = [\<lparr>group_number = 1, members = [pupil ''ann'' 4, pupil ''bob'' 1]\<rparr>,
                   \<lparr>group_number = 2, members = [pupil ''cy'' 3, phantom]\<rparr>],
      st_suceeded = False,
      st_balance_rules = []\<rparr>"

text \<open>One student in a group of three: two phantoms that no engine can separate.\<close>

definition lone :: "(descriptor, rule) collaborators" where
  "lone = example [pupil ''ann'' 4] 3
            [\<lparr>group_number = 1, members = [pupil ''ann'' 4, phantom, phantom]\<rparr>]
            [phantom, phantom]"

definition lone_enforced :: "rule state" where
  "lone_enforced =
     \<lparr>st_students = [pupil ''ann'' 4],
      st_identifier = ''ID'',
      st_course = \<lparr>students = [pupil ''ann'' 4, phantom, phantom],
                   group_size = 3, uneven_size = None\<rparr>,
      st_rules = [Distribute_rule ''ID'' ''phantom'', Balance_rule ''gpa'',
                  Distribute_rule ''gpa'' ''high'', Balance_rule ''age''],
      st_groups = [\<lparr>group_number = 1, members = [pupil ''ann'' 4, phantom, phantom]\<rparr>],
      st_suceeded = False,
      st_balance_rules = []\<rparr>"

text \<open>A strength that ranks every student alike, for the partitioner of the spec.\<close>

definition no_strength :: "rule \<Rightarrow> student \<Rightarrow> int" where
  "no_strength r s = 0"

definition undersized :: "bool \<Rightarrow> int \<Rightarrow> (descriptor, rule) collaborators" where
  "undersized round_up gsize =
     (example [pupil ''ann'' 4] gsize [] [])
       \<lparr>make_initial_groups := spec_make_initial_groups round_up no_strength\<rparr>"

text \<open>
  A run on the partitioner of the spec, with a rule engine that swaps the first members
  of two groups.
\<close>

fun swap_heads :: "group list \<Rightarrow> group list" where
  "swap_heads [g, h] =
     (case (members g, members h) of
        (s # xs, t # ys) \<Rightarrow> [g\<lparr>members := xs @ [t]\<rparr>, h\<lparr>members := ys @ [s]\<rparr>]
      | _ \<Rightarrow> [g, h])"
| "swap_heads gs = gs"

definition modelled :: "(descriptor, rule) collaborators" where
  "modelled =
     (example [pupil ''ann'' 4, pupil ''bob'' 1, pupil ''cy'' 3] 2 [] [])
       \<lparr>make_initial_groups := spec_make_initial_groups True no_strength,
        apply_rules_list := (\<lambda>rules gs studs.
          Inr (list_all (\<lambda>r. list_all (example_check r) (swap_heads gs)) rules,
               swap_heads gs, studs))\<rparr>"

definition modelled_enforced :: "rule state" where
  "modelled_enforced =
     \<lparr>st_students = [pupil ''ann'' 4, pupil ''bob'' 1, pupil ''cy'' 3],
      st_identifier = ''ID'',
      st_course = \<lparr>students = [pupil ''ann'' 4, pupil ''bob'' 1, pupil ''cy'' 3, phantom],
                   group_size = 2, uneven_size = None\<rparr>,
      st_rules = [Distribute_rule ''ID'' ''phantom'', Balance_rule ''gpa'',
                  Distribute_rule ''gpa'' ''high'', Balance_rule ''age''],
      st_groups = [\<lparr>group_number = 1, members = [pupil ''cy'' 3, pupil ''bob'' 1]\<rparr>,
                   \<lparr>group_number = 2, members = [phantom, pupil ''ann'' 4]\<rparr>],
      st_suceeded = False,
      st_balance_rules = []\<rparr>"

definition modelled_returned :: "rule state" where
  "modelled_returned =
     modelled_enforced
       \<lparr>st_groups := [\<lparr>group_number = 1, members = [pupil ''cy'' 3, pupil ''bob'' 1]\<rparr>,
                      \<lparr>group_number = 2, members = [pupil ''ann'' 4]\<rparr>],
        st_course := \<lparr>students = [pupil ''ann'' 4, pupil ''bob'' 1, pupil ''cy'' 3],
                      group_size = 2, uneven_size = None\<rparr>\<rparr>"

section \<open>Exceptions: when a step returns and what it raises\<close>

lemma and_then_Inr: "(and_then m f = Inr y) = (\<exists>x. m = Inr x \<and> f x = Inr y)"
  by (cases m) simp_all

lemma and_then_Inl: "(and_then m f = Inl e) = (m = Inl e \<or> (\<exists>x. m = Inr x \<and> f x = Inl e))"
  by (cases m) simp_all

lemma call_Inr: "(call m = Inr v) = (m = Inr v)"
  by (cases m) simp_all


lemma subscript_Inr: "(subscript k v = Inr x) = (v = Some x)"
  by (cases v) simp_all

lemma subscript_Inl: "(subscript k v = Inl e) = (v = None \<and> e = KeyError k)"
  by (cases v) auto

lemma strip_phantoms_Inr:
  "strip_phantoms ident ss = Inr r \<Longrightarrow> r = filter (\<lambda>s. \<not> is_phantom ident s) ss"
  by (induction ss arbitrary: r) (auto simp: and_then_Inr subscript_Inr is_phantom_def)

lemma strip_phantoms_Inl: "strip_phantoms ident ss = Inl e \<Longrightarrow> e = KeyError ident"
  by (induction ss) (auto simp: and_then_Inl subscript_Inl)

lemma strip_groups_Inr:
  "strip_groups ident gs = Inr r \<Longrightarrow>
   r = map (\<lambda>g. g\<lparr>members := filter (\<lambda>s. \<not> is_phantom ident s) (members g)\<rparr>) gs"
  by (induction gs arbitrary: r) (auto simp: and_then_Inr dest: strip_phantoms_Inr)

lemma strip_groups_Inl: "strip_groups ident gs = Inl e \<Longrightarrow> e = KeyError ident"
  by (induction gs) (auto simp: and_then_Inl dest: strip_phantoms_Inl)


section \<open>The stages of \<open>run\<close>\<close>

lemma enforce_Inr:
  assumes "enforce E input_deck = Inr st"
  obtains dek studs c descriptors rules0 groups c1 drawn phantom_rule groups1 studs1 where
    "load_course E input_deck = Inr (dek, studs, st_identifier st, c)"
    "dek_rules dek = Some descriptors"
    "make_rules E descriptors c = Inr rules0"
    "make_initial_groups E c (filter (isinstance_Balance E) rules0) = Inr (groups, c1, drawn)"
    "Distribute E (st_identifier st) c1 ''phantom'' = Inr phantom_rule"
    "apply_rules_list E (phantom_rule # rules0) groups (students c1) =
       Inr (st_suceeded st, groups1, studs1)"
    "st_rules st = phantom_rule # rules0"
    "st_groups st = sort_key group_number groups1"
    "st_course st = c1\<lparr>students := studs1\<rparr>"
    "st_students st = studs"
    "st_balance_rules st = drop drawn (filter (isinstance_Balance E) rules0)"
  using assms unfolding enforce_def
  by (auto simp: and_then_Inr call_Inr subscript_Inr split: prod.splits)

lemma uneven_test_Inr:
  "(uneven_test E st = Inr st') =
   (st' = st \<and> st_rules st \<noteq> [] \<and> failures (check E (st_course st)) (st_groups st) (st_rules st ! 0) = 0)"
  by (cases "st_rules st") (auto simp: uneven_test_def)

lemma uneven_test_UnevenGroups:
  "(uneven_test E st = Inl UnevenGroups) =
   (st_rules st \<noteq> [] \<and> failures (check E (st_course st)) (st_groups st) (st_rules st ! 0) \<noteq> 0)"
  by (cases "st_rules st") (auto simp: uneven_test_def)

lemma strip_not_UnevenGroups: "strip st \<noteq> Inl UnevenGroups"
  by (auto simp: strip_def and_then_Inl dest: strip_groups_Inl strip_phantoms_Inl)

lemma strip_Inr:
  "strip st = Inr st' \<Longrightarrow>
   st' = st\<lparr>st_groups := map (\<lambda>g. g\<lparr>members := filter (\<lambda>s. \<not> is_phantom (st_identifier st) s) (members g)\<rparr>) (st_groups st),
            st_course := (st_course st)\<lparr>students := filter (\<lambda>s. \<not> is_phantom (st_identifier st) s) (students (st_course st))\<rparr>\<rparr>"
  by (auto simp: strip_def and_then_Inr dest: strip_groups_Inr strip_phantoms_Inr)

lemma run_groups_Inr:
  "(run_groups E input_deck = Inr st') =
   (\<exists>st. enforce E input_deck = Inr st \<and> uneven_test E st = Inr st \<and> strip st = Inr st')"
  by (auto simp: run_groups_def and_then_Inr uneven_test_Inr)

lemma run_Inr:
  "(run E input_deck = Inr (groups, suceeded, outdir)) =
   (\<exists>st. run_groups E input_deck = Inr st \<and> groups = st_groups st \<and> suceeded = st_suceeded st \<and>
      write_files E input_deck st (rule_failures E st) (summaries E st) = Inr outdir)"
  by (auto simp: run_def and_then_Inr call_Inr)


lemma run_groups_after_enforce:
  "enforce E input_deck = Inr st \<Longrightarrow> run_groups E input_deck = and_then (uneven_test E st) strip"
  by (simp add: run_groups_def)

lemma run_groups_UnevenGroups:
  assumes "enforce E input_deck = Inr st"
  shows "(run_groups E input_deck = Inl UnevenGroups) = (uneven_test E st = Inl UnevenGroups)"
  by (auto simp: run_groups_after_enforce[OF assms] and_then_Inl strip_not_UnevenGroups)

lemma make_rules_write_files [simp]: "make_rules (E\<lparr>write_files := w\<rparr>) ds c = make_rules E ds c"
  by (induction ds) simp_all

lemma load_course_write_files [simp]:
  "load_course (E\<lparr>write_files := w\<rparr>) input_deck = load_course E input_deck"
  by (simp add: load_course_def)

lemma enforce_write_files [simp]:
  "enforce (E\<lparr>write_files := w\<rparr>) input_deck = enforce E input_deck"
  by (simp add: enforce_def)

lemma uneven_test_write_files [simp]: "uneven_test (E\<lparr>write_files := w\<rparr>) = uneven_test E"
  by (rule ext) (simp add: uneven_test_def split: list.split)

lemma run_groups_write_files: "run_groups (E\<lparr>write_files := w\<rparr>) input_deck = run_groups E input_deck"
  by (simp add: run_groups_def)

lemma group_summaries_exhausted:
  "\<forall>summary\<in>set (group_summaries chk rules [] gs). (\<forall>item\<in>set (snd summary). \<not> is_Mean_item item)"
  by (induction gs) auto

lemma run_groups_balance_rules:
  assumes "run_groups E input_deck = Inr st"
  shows "\<exists>st0 dek studs c descriptors user_rules groups c1 drawn.
           enforce E input_deck = Inr st0 \<and>
           load_course E input_deck = Inr (dek, studs, st_identifier st0, c) \<and>
           dek_rules dek = Some descriptors \<and>
           make_rules E descriptors c = Inr user_rules \<and>
           make_initial_groups E c (filter (isinstance_Balance E) user_rules) = Inr (groups, c1, drawn) \<and>
           st_balance_rules st = drop drawn (filter (isinstance_Balance E) user_rules)"
proof -
  from assms obtain st0 where st0: "enforce E input_deck = Inr st0" "strip st0 = Inr st"
    by (auto simp: run_groups_Inr)
  have "st_balance_rules st = st_balance_rules st0"
    by (subst strip_Inr[OF st0(2)]) simp
  moreover from st0(1) obtain dek studs c descriptors rules0 groups c1 drawn where
    "load_course E input_deck = Inr (dek, studs, st_identifier st0, c)"
    "dek_rules dek = Some descriptors"
    "make_rules E descriptors c = Inr rules0"
    "make_initial_groups E c (filter (isinstance_Balance E) rules0) = Inr (groups, c1, drawn)"
    "st_balance_rules st0 = drop drawn (filter (isinstance_Balance E) rules0)"
    by (rule enforce_Inr)
  ultimately show ?thesis using st0(1) by auto
qed

lemma concat_stripped_members:
  "concat (map members (map (\<lambda>g. g\<lparr>members := filter P (members g)\<rparr>) gs)) =
   filter P (concat (map members gs))"
  by (induction gs) simp_all

lemma count_list_concat_one:
  "count_list (concat xss) x = 1 \<Longrightarrow> length (filter (\<lambda>xs. x \<in> set xs) xss) = 1"
proof (induction xss)
  case Nil
  then show ?case by simp
next
  case (Cons xs xss)
  show ?case
  proof (cases "x \<in> set xs")
    case True
    then have "count_list xs x \<noteq> 0" by (simp add: count_list_0_iff)
    with Cons.prems have "count_list (concat xss) x = 0" by simp
    then have "\<forall>ys\<in>set xss. x \<notin> set ys" by (auto simp: count_list_0_iff)
    then have "filter (\<lambda>xs. x \<in> set xs) xss = []" by (simp add: filter_empty_conv)
    with True show ?thesis by simp
  next
    case False
    with Cons show ?thesis by simp
  qed
qed

section \<open>The examples, evaluated\<close>

lemmas example_simps =
  example_def pupil_def phantom_def load_course_def enforce_def uneven_test_def failures_def strip_def run_groups_def run_def summaries_def
  is_phantom_def

lemma trio_enforce: "enforce trio ''deck'' = Inr trio_enforced"
  by (simp add: trio_def trio_enforced_def example_simps)

lemma trio_run:
  "run trio ''deck'' =
     Inr ([\<lparr>group_number = 1, members = [pupil ''ann'' 4, pupil ''bob'' 1]\<rparr>,
           \<lparr>group_number = 2, members = [pupil ''cy'' 3]\<rparr>], False, ''groups_deck'')"
  by (simp add: trio_def trio_enforced_def example_simps)

lemma lone_enforce: "enforce lone ''deck'' = Inr lone_enforced"
  by (simp add: lone_def lone_enforced_def example_simps)

lemma lone_failures:
  "failures (check lone (st_course lone_enforced)) (st_groups lone_enforced) (st_rules lone_enforced ! 0) = 1"
  by (simp add: lone_def lone_enforced_def example_simps)

lemma lone_run: "run lone ''deck'' = Inl UnevenGroups"
  by (simp add: lone_def lone_enforced_def example_simps)

section \<open>Lengths in the partitioner of the spec\<close>

lemma length_seed [simp]: "length (seed strength rs xs) = length xs"
  unfolding seed_def by (induction rs arbitrary: xs) simp_all

lemma members_number_groups [simp]: "map members (number_groups piles) = piles"
  unfolding number_groups_def by (simp add: comp_def case_prod_unfold map_snd_enumerate)

lemma length_number_groups [simp]: "length (number_groups piles) = length piles"
  by (simp add: number_groups_def)

section \<open>Moves, dealing and sorting keep the members\<close>

lemma move_keeps_members:
  "move gs gs' \<Longrightarrow> mset (concat (map members gs')) = mset (concat (map members gs))"
  by (induction rule: move.induct) simp_all

lemma moves_keep_members:
  "moves gs gs' \<Longrightarrow> mset (concat (map members gs')) = mset (concat (map members gs))"
  by (induction rule: moves.induct) (simp_all add: move_keeps_members)

lemma mset_concat_perm:
  "mset xss = mset yss \<Longrightarrow> mset (concat xss) = mset (concat yss)"
proof -
  assume a: "mset xss = mset yss"
  have "mset (concat xss) = sum_mset (image_mset mset (mset xss))" for xss :: "'a list list"
    by (induction xss) simp_all
  with a show ?thesis by simp
qed

lemma sorted_groups_keep_members:
  "mset (concat (map members (sort_key f gs))) = mset (concat (map members gs))"
  by (rule mset_concat_perm) simp

lemma mset_seed [simp]: "mset (seed strength rs xs) = mset xs"
  unfolding seed_def by (induction rs arbitrary: xs) simp_all

lemma sum_list_single_hit:
  fixes A :: "'a multiset"
  shows "distinct js \<Longrightarrow>
         (\<Sum>j\<leftarrow>js. if a = j then A else {#}) = (if a \<in> set js then A else {#})"
  by (induction js) auto

lemma residues_cover:
  assumes "0 < k"
  shows "(\<Sum>j\<leftarrow>[0..<k]. image_mset f (filter_mset (\<lambda>i. i mod k = j) M)) = image_mset f M"
proof (induction M)
  case empty
  show ?case by (induction k) simp_all
next
  case (add x M)
  have "(\<Sum>j\<leftarrow>[0..<k]. image_mset f (filter_mset (\<lambda>i. i mod k = j) (add_mset x M))) =
        (\<Sum>j\<leftarrow>[0..<k]. (if x mod k = j then {#f x#} else {#}) +
            image_mset f (filter_mset (\<lambda>i. i mod k = j) M))"
    by (rule arg_cong[where f = sum_list]) simp
  also have "\<dots> = (\<Sum>j\<leftarrow>[0..<k]. if x mod k = j then {#f x#} else {#}) +
        (\<Sum>j\<leftarrow>[0..<k]. image_mset f (filter_mset (\<lambda>i. i mod k = j) M))"
    by (rule sum_list_addf)
  also have "(\<Sum>j\<leftarrow>[0..<k]. if x mod k = j then {#f x#} else {#}) = {#f x#}"
    using assms by (simp add: sum_list_single_hit)
  finally show ?case by (simp add: add.IH)
qed

lemma mset_deal:
  assumes "0 < k"
  shows "mset (concat (deal k xs)) = mset xs"
proof -
  have "mset (concat (deal k xs)) =
        (\<Sum>j\<leftarrow>[0..<k]. image_mset (nth xs) (filter_mset (\<lambda>i. i mod k = j) (mset [0..<length xs])))"
    by (simp add: deal_def mset_concat comp_def)
  also have "\<dots> = image_mset (nth xs) (mset [0..<length xs])"
    using assms by (rule residues_cover)
  also have "\<dots> = mset (map (nth xs) [0..<length xs])"
    by simp
  also have "\<dots> = mset xs"
    by (simp only: map_nth)
  finally show ?thesis .
qed

lemma first_identifier:
  "((case studs of [] \<Rightarrow> Inl IndexError | s0 # rest \<Rightarrow> Inr (s_identifier s0)) = Inr ident) =
   (studs \<noteq> [] \<and> ident = s_identifier (hd studs))"
  by (cases studs) auto

lemma load_course_Inr:
  assumes "load_course E input_deck = Inr (dek, studs, ident, c)"
  obtains classlist gsize where
    "load_classlist E classlist (dek_student_identifier dek) = Inr studs"
    "studs \<noteq> []" "ident = s_identifier (hd studs)"
    "Course E studs gsize (dek_uneven_size dek) = Inr c"
  using assms unfolding load_course_def
  by (auto simp: and_then_Inr call_Inr subscript_Inr first_identifier)

lemma make_phantom_is_phantom:
  "roster \<noteq> [] \<Longrightarrow> is_phantom (s_identifier (hd roster)) (make_phantom roster)"
  by (cases roster) (simp_all add: make_phantom_def is_phantom_def Let_def)

lemma group_count_positive:
  assumes "0 < g" "g \<le> n + nat (phantoms_needed round_up n g)"
  shows "0 < group_count round_up n g"
proof (rule ccontr)
  assume "\<not> 0 < group_count round_up n g"
  then have zero: "group_count round_up n g = 0" by simp
  then have "nat (phantoms_needed round_up n g) = 0"
    by (simp add: phantoms_needed_def)
  with assms have n: "g \<le> n" by simp
  with assms(1) have "0 < n div g" by (simp add: div_greater_zero_iff)
  moreover from assms(1) n have "0 < (n + g - 1) div g" by (simp add: div_greater_zero_iff)
  ultimately show False using zero by (simp add: group_count_def split: if_splits)
qed

lemma spec_groups_hold_padded_roster:
  assumes "spec_make_initial_groups round_up strength c balance_rules = Inr (groups, c', drawn)"
  shows "mset (concat (map members groups)) = mset (students c')"
    and "\<exists>m. students c' = students c @ replicate m (make_phantom (students c))"
    and "drawn = length balance_rules"
proof -
  let ?n = "length (students c)"
  let ?g = "nat (group_size c)"
  let ?phantoms = "replicate (nat (phantoms_needed round_up ?n ?g)) (make_phantom (students c))"
  let ?padded = "seed strength balance_rules (students c) @ ?phantoms"
  from assms have pos: "0 < group_size c" and fits: "\<not> length ?padded < ?g"
    and g: "groups = number_groups (deal (group_count round_up ?n ?g) ?padded)"
    and c': "students c' = students c @ ?phantoms" and d: "drawn = length balance_rules"
    by (auto simp: spec_make_initial_groups_def Let_def split: if_splits)
  from pos fits have "0 < group_count round_up ?n ?g"
    by (intro group_count_positive) simp_all
  then have "mset (concat (deal (group_count round_up ?n ?g) ?padded)) = mset ?padded"
    by (rule mset_deal)
  then show "mset (concat (map members groups)) = mset (students c')"
    by (simp add: g c')
  from c' show "\<exists>m. students c' = students c @ replicate m (make_phantom (students c))"
    by blast
  from d show "drawn = length balance_rules" .
qed

section \<open>Stripping keeps a partition\<close>

lemma strip_keeps_partition:
  assumes enforced: "enforce E input_deck = Inr st0"
    and returned: "run_groups E input_deck = Inr st"
    and placed: "mset (concat (map members (st_groups st0))) = mset (students (st_course st0))"
    and padded: "mset (filter (\<lambda>s. \<not> is_phantom (st_identifier st0) s) (students (st_course st0))) =
                 mset (filter (\<lambda>s. \<not> is_phantom (st_identifier st0) s) (st_students st0))"
    and unique: "distinct (st_students st0)"
  shows "sum_list (map (\<lambda>g. length (members g)) (st_groups st)) =
           length (filter (\<lambda>s. \<not> is_phantom (st_identifier st0) s) (st_students st0)) \<and>
         (\<forall>s\<in>set (st_students st0). \<not> is_phantom (st_identifier st0) s \<longrightarrow>
            length (filter (\<lambda>g. s \<in> set (members g)) (st_groups st)) = 1 \<and>
            count_list (concat (map members (st_groups st))) s = 1)"
proof -
  let ?real = "\<lambda>s. \<not> is_phantom (st_identifier st0) s"
  from enforced returned have "strip st0 = Inr st"
    by (auto simp: run_groups_Inr)
  then have "st_groups st = map (\<lambda>g. g\<lparr>members := filter ?real (members g)\<rparr>) (st_groups st0)"
    by (auto dest: strip_Inr)
  then have "concat (map members (st_groups st)) = filter ?real (concat (map members (st_groups st0)))"
    by (simp only: concat_stripped_members)
  then have "mset (concat (map members (st_groups st))) =
             filter_mset ?real (mset (concat (map members (st_groups st0))))"
    by simp
  also have "\<dots> = mset (filter ?real (students (st_course st0)))"
    by (simp add: placed)
  also note padded
  finally have all: "mset (concat (map members (st_groups st))) = mset (filter ?real (st_students st0))" .
  have "sum_list (map (\<lambda>g. length (members g)) (st_groups st)) =
        length (concat (map members (st_groups st)))"
    by (simp add: length_concat comp_def)
  also have "\<dots> = length (filter ?real (st_students st0))"
    using all by (metis size_mset)
  finally have total: "sum_list (map (\<lambda>g. length (members g)) (st_groups st)) =
        length (filter ?real (st_students st0))" .
  have once: "length (filter (\<lambda>g. s \<in> set (members g)) (st_groups st)) = 1 \<and>
        count_list (concat (map members (st_groups st))) s = 1"
    if "s \<in> set (st_students st0)" "?real s" for s
  proof -
    from unique have "distinct (filter ?real (st_students st0))" by simp
    moreover from that have "s \<in> set (filter ?real (st_students st0))" by simp
    ultimately have "count (mset (filter ?real (st_students st0))) s = 1"
      by (simp only: distinct_count_atmost_1 if_True)
    with all have c: "count_list (concat (map members (st_groups st))) s = 1"
      by (simp only: count_mset[symmetric])
    then have "length (filter (\<lambda>xs. s \<in> set xs) (map members (st_groups st))) = 1"
      by (rule count_list_concat_one)
    then have "length (filter (\<lambda>g. s \<in> set (members g)) (st_groups st)) = 1"
      by (simp add: filter_map comp_def)
    with c show ?thesis by simp
  qed
  from total once show ?thesis by blast
qed

section \<open>The run on the partitioner of the spec, evaluated\<close>

lemma modelled_enforce: "enforce modelled ''deck'' = Inr modelled_enforced"
  by code_simp

lemma modelled_run_groups: "run_groups modelled ''deck'' = Inr modelled_returned"
  by code_simp

lemma modelled_run:
  "run modelled ''deck'' =
     Inr ([\<lparr>group_number = 1, members = [pupil ''cy'' 3, pupil ''bob'' 1]\<rparr>,
           \<lparr>group_number = 2, members = [pupil ''ann'' 4]\<rparr>], False, ''groups_deck'')"
  by code_simp

lemma moves_swap_heads: "moves gs (swap_heads gs)"
proof (induction gs rule: swap_heads.induct)
  case (1 g h)
  show ?case
  proof (cases "members g")
    case Nil
    then show ?thesis by (simp add: moves.stay)
  next
    case g: (Cons s xs)
    show ?thesis
    proof (cases "members h")
      case Nil
      with g show ?thesis by (simp add: moves.stay)
    next
      case h: (Cons t ys)
      have "move [g, h] [g\<lparr>members := xs\<rparr>, h\<lparr>members := t # ys @ [s]\<rparr>]"
        using move_down[where g = g and xs = "[]" and s = s and ys = xs and h = h
            and us = "t # ys" and vs = "[]" and pre = "[]" and mid = "[]" and post = "[]"] g h
        by simp
      moreover have "move [g\<lparr>members := xs\<rparr>, h\<lparr>members := t # ys @ [s]\<rparr>]
          [g\<lparr>members := xs @ [t]\<rparr>, h\<lparr>members := ys @ [s]\<rparr>]"
        using move_up[where g = "h\<lparr>members := t # ys @ [s]\<rparr>" and xs = "[]" and s = t
            and ys = "ys @ [s]" and h = "g\<lparr>members := xs\<rparr>" and us = xs and vs = "[]"
            and pre = "[]" and mid = "[]" and post = "[]"]
        by simp
      ultimately have "moves [g, h] [g\<lparr>members := xs @ [t]\<rparr>, h\<lparr>members := ys @ [s]\<rparr>]"
        by (blast intro: moves.intros)
      with g h show ?thesis by simp
    qed
  qed
qed (simp_all add: moves.stay)

section \<open>The phantom rule, \<open>UnevenGroups\<close> and the success flag\<close>




section \<open>What the caller gets when the groups are uneven\<close>

text \<open>
  C2, as the spec states it: when the phantom rule still has failing groups after the
  full enforcement pass, the caller still receives the complete partition. The run
  below has one student and a group size of three: the only group holds two phantoms,
  the phantom rule fails on it, and \<^verbatim>\<open>run\<close> ends in the bare exception
  \<^verbatim>\<open>UnevenGroups\<close>, which has no fields; no groups come back.
\<close>

theorem ungroupable_run_returns_no_groups:
  "enforce lone ''deck'' = Inr lone_enforced \<and>
   failures (check lone (st_course lone_enforced)) (st_groups lone_enforced)
     (st_rules lone_enforced ! 0) = 1 \<and>
   run lone ''deck'' = Inl UnevenGroups"
  by (simp add: lone_enforce lone_failures lone_run)

text \<open>
  C2, amended. When the phantom rule still has failing groups after the full enforcement
  pass, \<^verbatim>\<open>run\<close> raises \<^verbatim>\<open>UnevenGroups\<close>: after enforcement and sorting,
  before the phantoms are stripped and before anything is written (whatever the output
  step would do, the outcome is the same). The exception carries nothing and
  \<^verbatim>\<open>run\<close> returns nothing.
\<close>

theorem ungroupable_run_raises:
  assumes "enforce E input_deck = Inr st"
    and "failures (check E (st_course st)) (st_groups st) (st_rules st ! 0) \<noteq> 0"
  shows "run E input_deck = Inl UnevenGroups \<and>
         run (E\<lparr>write_files := w\<rparr>) input_deck = Inl UnevenGroups"
proof -
  have "run_groups E input_deck = Inl UnevenGroups"
    using assms by (auto simp: run_groups_UnevenGroups enforce_Inr uneven_test_UnevenGroups
        elim: enforce_Inr)
  then show ?thesis
    by (simp add: run_def run_groups_write_files)
qed

theorem ungroupable_run_raises_witness:
  "run lone ''deck'' = Inl UnevenGroups \<and>
   run (lone\<lparr>write_files := (\<lambda>deck st counts items. Inl ''disk full'')\<rparr>) ''deck'' =
     Inl UnevenGroups"
  using ungroupable_run_raises[OF lone_enforce, of "\<lambda>deck st counts items. Inl ''disk full''"]
    lone_failures
  by simp

section \<open>Stripping the phantoms\<close>

text \<open>
  C3. When \<^verbatim>\<open>run\<close> returns normally, the returned groups are the enforced groups
  with every phantom (a student whose identifying attribute is \<^verbatim>\<open>'phantom'\<close>) filtered
  out of every membership list, and \<^verbatim>\<open>course.students\<close> is the enforced roster
  filtered in the same way: no returned group and no entry of the final student list is a
  phantom.
\<close>

theorem run_returns_groups_without_phantoms:
  assumes "run E input_deck = Inr (groups, suceeded, outdir)"
  shows "\<exists>st0 st. enforce E input_deck = Inr st0 \<and> run_groups E input_deck = Inr st \<and>
           groups = st_groups st \<and>
           st_groups st = map (\<lambda>g. g\<lparr>members := filter (\<lambda>s. \<not> is_phantom (st_identifier st0) s) (members g)\<rparr>)
                              (st_groups st0) \<and>
           students (st_course st) =
             filter (\<lambda>s. \<not> is_phantom (st_identifier st0) s) (students (st_course st0)) \<and>
           (\<forall>g\<in>set groups. \<forall>s\<in>set (members g). \<not> is_phantom (st_identifier st0) s) \<and>
           (\<forall>s\<in>set (students (st_course st)). \<not> is_phantom (st_identifier st0) s)"
proof -
  from assms obtain st where st: "run_groups E input_deck = Inr st" "groups = st_groups st"
    by (auto simp: run_Inr)
  then obtain st0 where st0: "enforce E input_deck = Inr st0" "strip st0 = Inr st"
    by (auto simp: run_groups_Inr)
  note eq = strip_Inr[OF st0(2)]
  have g: "st_groups st = map (\<lambda>g. g\<lparr>members := filter (\<lambda>s. \<not> is_phantom (st_identifier st0) s) (members g)\<rparr>)
                              (st_groups st0)"
    by (subst eq) simp
  have c: "students (st_course st) =
             filter (\<lambda>s. \<not> is_phantom (st_identifier st0) s) (students (st_course st0))"
    by (subst eq) simp
  have "\<forall>g\<in>set groups. \<forall>s\<in>set (members g). \<not> is_phantom (st_identifier st0) s"
    unfolding st(2) g by auto
  moreover have "\<forall>s\<in>set (students (st_course st)). \<not> is_phantom (st_identifier st0) s"
    unfolding c by simp
  ultimately show ?thesis using st st0 g c by blast
qed

theorem run_returns_groups_without_phantoms_witness:
  "run trio ''deck'' =
     Inr ([\<lparr>group_number = 1, members = [pupil ''ann'' 4, pupil ''bob'' 1]\<rparr>,
           \<lparr>group_number = 2, members = [pupil ''cy'' 3]\<rparr>], False, ''groups_deck'') \<and>
   list_all (\<lambda>g. list_all (\<lambda>s. \<not> is_phantom ''ID'' s) (members g))
     [\<lparr>group_number = 1, members = [pupil ''ann'' 4, pupil ''bob'' 1]\<rparr>,
      \<lparr>group_number = 2, members = [pupil ''cy'' 3]\<rparr>]"
proof -
  let ?groups = "[\<lparr>group_number = 1, members = [pupil ''ann'' 4, pupil ''bob'' 1]\<rparr>,
      \<lparr>group_number = 2, members = [pupil ''cy'' 3]\<rparr>]"
  from run_returns_groups_without_phantoms[OF trio_run] obtain st0 where
    e: "enforce trio ''deck'' = Inr st0" and
    g: "\<forall>g\<in>set ?groups. \<forall>s\<in>set (members g). \<not> is_phantom (st_identifier st0) s"
    by blast
  from e have "st0 = trio_enforced"
    by (simp only: trio_enforce sum.inject)
  then have "st_identifier st0 = ''ID''"
    by (simp add: trio_enforced_def)
  with g have "list_all (\<lambda>g. list_all (\<lambda>s. \<not> is_phantom ''ID'' s) (members g)) ?groups"
    by (simp only: list_all_iff)
  with trio_run show ?thesis by (rule conjI)
qed

section \<open>The rule list that the engine receives\<close>



section \<open>Counting failures\<close>

text \<open>
  C5. For every rule \<open>r\<close> and every list of groups, \<open>failures r\<close> is the number of
  groups of the list on which the check of \<open>r\<close> is false.
\<close>

theorem failures_counts_failing_groups:
  "failures chk groups r = int (length (filter (\<lambda>g. \<not> chk r g) groups))"
  unfolding failures_def by (induction groups) simp_all

theorem failures_counts_failing_groups_witness:
  "failures (check lone (st_course lone_enforced)) (st_groups lone_enforced)
     (Distribute_rule ''ID'' ''phantom'') = 1"
  using failures_counts_failing_groups[of "check lone (st_course lone_enforced)"
      "st_groups lone_enforced" "Distribute_rule ''ID'' ''phantom''"]
  by (simp add: lone_def lone_enforced_def example_def pupil_def phantom_def)

section \<open>The initial partitioner of the spec\<close>

text \<open>
  C6. Take the partitioner as the spec describes it. For every input where the group
  size is not positive, or exceeds the size of the roster even after phantom padding, the
  partitioner raises a configuration error and returns no group; \<^verbatim>\<open>run\<close> has no
  handler, so the error leaves \<^verbatim>\<open>run\<close> at line 63, before the rule engine is
  called, and no partition is produced.
\<close>

theorem configuration_error_stops_run:
  assumes loaded: "load_course E input_deck = Inr (dek, studs, ident, c)"
    and deck: "dek_rules dek = Some descriptors"
    and made: "make_rules E descriptors c = Inr user_rules"
    and partitioner: "make_initial_groups E = spec_make_initial_groups round_up strength"
    and bad: "group_size c \<le> 0 \<or>
              int (padded_size round_up (length (students c)) (nat (group_size c))) < group_size c"
  shows "spec_make_initial_groups round_up strength c (filter (isinstance_Balance E) user_rules) =
           Inl ''ConfigurationError'' \<and>
         enforce E input_deck = Inl (Raised ''ConfigurationError'') \<and>
         run E input_deck = Inl (Raised ''ConfigurationError'')"
proof -
  have refused: "spec_make_initial_groups round_up strength c (filter (isinstance_Balance E) user_rules) =
      Inl ''ConfigurationError''"
  proof (cases "group_size c \<le> 0")
    case True
    then show ?thesis by (simp add: spec_make_initial_groups_def)
  next
    case False
    with bad have "padded_size round_up (length (students c)) (nat (group_size c)) < nat (group_size c)"
      by linarith
    with False show ?thesis
      by (simp add: spec_make_initial_groups_def Let_def padded_size_def)
  qed
  then have e: "enforce E input_deck = Inl (Raised ''ConfigurationError'')"
    by (simp add: enforce_def loaded deck made partitioner)
  then have "run E input_deck = Inl (Raised ''ConfigurationError'')"
    by (simp add: run_def run_groups_def)
  with refused e show ?thesis by simp
qed

theorem configuration_error_stops_run_witness:
  "run (undersized True 0) ''deck'' = Inl (Raised ''ConfigurationError'') \<and>
   run (undersized False 3) ''deck'' = Inl (Raised ''ConfigurationError'')"
proof -
  let ?dek = "\<lambda>gsize. \<lparr>dek_classlist = Some ''class.csv'', dek_student_identifier = Some ''ID'',
                 dek_group_size = Some gsize, dek_uneven_size = None,
                 dek_rules = Some [Balance_desc ''gpa'', Distribute_desc ''gpa'' ''high'',
                                   Balance_desc ''age'']\<rparr>"
  let ?c = "\<lambda>gsize. \<lparr>students = [pupil ''ann'' 4], group_size = gsize, uneven_size = None\<rparr>"
  let ?rules = "[Balance_rule ''gpa'', Distribute_rule ''gpa'' ''high'', Balance_rule ''age'']"
  have l: "load_course (undersized r gsize) ''deck'' = Inr (?dek gsize, [pupil ''ann'' 4], ''ID'', ?c gsize)"
    for r gsize
    by (simp add: undersized_def example_simps)
  have d: "dek_rules (?dek gsize) = Some [Balance_desc ''gpa'', Distribute_desc ''gpa'' ''high'',
                                   Balance_desc ''age'']" for gsize
    by simp
  have m: "make_rules (undersized r gsize) [Balance_desc ''gpa'', Distribute_desc ''gpa'' ''high'',
                                   Balance_desc ''age''] (?c gsize) = Inr ?rules" for r gsize
    by (simp add: undersized_def example_simps)
  have p: "make_initial_groups (undersized r gsize) = spec_make_initial_groups r no_strength" for r gsize
    by (simp add: undersized_def)
  have b0: "group_size (?c 0) \<le> 0 \<or>
      int (padded_size True (length (students (?c 0))) (nat (group_size (?c 0)))) < group_size (?c 0)"
    by simp
  have b3: "group_size (?c 3) \<le> 0 \<or>
      int (padded_size False (length (students (?c 3))) (nat (group_size (?c 3)))) < group_size (?c 3)"
    by (simp add: padded_size_def phantoms_needed_def group_count_def)
  show ?thesis
    using configuration_error_stops_run[OF l d m p b0] configuration_error_stops_run[OF l d m p b3]
    by simp
qed

section \<open>The partition after stripping\<close>

text \<open>
  C8. Take the partitioner and the rule engine as the spec describes them (the engine
  only moves students between groups and leaves the roster alone), a class list of
  distinct students, and a course that holds the class list. Then in every run that
  returns, after stripping, the memberships of the returned groups add up to the number
  of non-phantom students of the class list, and each such student is in exactly one
  returned group, once.
\<close>

theorem returned_groups_partition_roster:
  assumes returned: "run E input_deck = Inr (groups, suceeded, outdir)"
    and classlist: "\<forall>file ident roster. load_classlist E file ident = Inr roster \<longrightarrow> distinct roster"
    and holds: "\<forall>studs gsize policy c. Course E studs gsize policy = Inr c \<longrightarrow> students c = studs"
    and partitioner: "make_initial_groups E = spec_make_initial_groups round_up strength"
    and engine: "\<forall>rules gs studs ok gs' studs'.
        apply_rules_list E rules gs studs = Inr (ok, gs', studs') \<longrightarrow> moves gs gs' \<and> studs' = studs"
  shows "\<exists>st0. enforce E input_deck = Inr st0 \<and>
           sum_list (map (\<lambda>g. length (members g)) groups) =
             length (filter (\<lambda>s. \<not> is_phantom (st_identifier st0) s) (st_students st0)) \<and>
           (\<forall>s\<in>set (st_students st0). \<not> is_phantom (st_identifier st0) s \<longrightarrow>
              length (filter (\<lambda>g. s \<in> set (members g)) groups) = 1 \<and>
              count_list (concat (map members groups)) s = 1)"
proof -
  from returned obtain st where st: "run_groups E input_deck = Inr st" "groups = st_groups st"
    by (auto simp: run_Inr)
  then obtain st0 where st0: "enforce E input_deck = Inr st0"
    by (auto simp: run_groups_Inr)
  let ?real = "\<lambda>s. \<not> is_phantom (st_identifier st0) s"
  from st0 obtain dek studs c rules0 groups0 c1 drawn phantom_rule groups1 studs1 where
    loaded: "load_course E input_deck = Inr (dek, studs, st_identifier st0, c)" and
    made: "make_initial_groups E c (filter (isinstance_Balance E) rules0) = Inr (groups0, c1, drawn)" and
    applied: "apply_rules_list E (phantom_rule # rules0) groups0 (students c1) =
       Inr (st_suceeded st0, groups1, studs1)" and
    sorted: "st_groups st0 = sort_key group_number groups1" and
    kept: "st_course st0 = c1\<lparr>students := studs1\<rparr>" and
    roster: "st_students st0 = studs"
    by (rule enforce_Inr)
  from loaded obtain path gsize where
    read: "load_classlist E path (dek_student_identifier dek) = Inr studs" and
    some: "studs \<noteq> []" and ident: "st_identifier st0 = s_identifier (hd studs)" and
    built: "Course E studs gsize (dek_uneven_size dek) = Inr c"
    by (rule load_course_Inr)
  from read classlist have unique: "distinct studs" by blast
  from built holds have c: "students c = studs" by blast
  from made have spec: "spec_make_initial_groups round_up strength c
      (filter (isinstance_Balance E) rules0) = Inr (groups0, c1, drawn)"
    by (simp only: partitioner)
  from spec have dealt: "mset (concat (map members groups0)) = mset (students c1)"
    by (rule spec_groups_hold_padded_roster(1))
  from spec obtain m where c1: "students c1 = studs @ replicate m (make_phantom studs)"
    using spec_groups_hold_padded_roster(2) c by metis
  from applied engine have moved: "moves groups0 groups1" and same: "studs1 = students c1"
    by blast+
  have placed: "mset (concat (map members (st_groups st0))) = mset (students (st_course st0))"
    using moves_keep_members[OF moved] dealt
    by (simp add: sorted kept same sorted_groups_keep_members)
  have "is_phantom (st_identifier st0) (make_phantom studs)"
    using some by (simp add: ident make_phantom_is_phantom)
  then have "filter ?real (replicate m (make_phantom studs)) = []"
    by simp
  then have padded: "mset (filter ?real (students (st_course st0))) = mset (filter ?real (st_students st0))"
    by (simp add: kept same c1 roster)
  from unique have distinct: "distinct (st_students st0)"
    by (simp add: roster)
  from strip_keeps_partition[OF st0 st(1) placed padded distinct] st0 show ?thesis
    unfolding st(2) by blast
qed

theorem returned_groups_partition_roster_witness:
  "run modelled ''deck'' =
     Inr ([\<lparr>group_number = 1, members = [pupil ''cy'' 3, pupil ''bob'' 1]\<rparr>,
           \<lparr>group_number = 2, members = [pupil ''ann'' 4]\<rparr>], False, ''groups_deck'') \<and>
   sum_list (map (\<lambda>g. length (members g))
     [\<lparr>group_number = 1, members = [pupil ''cy'' 3, pupil ''bob'' 1]\<rparr>,
      \<lparr>group_number = 2, members = [pupil ''ann'' 4]\<rparr>]) = 3 \<and>
   length (filter (\<lambda>g. pupil ''ann'' 4 \<in> set (members g))
     [\<lparr>group_number = 1, members = [pupil ''cy'' 3, pupil ''bob'' 1]\<rparr>,
      \<lparr>group_number = 2, members = [pupil ''ann'' 4]\<rparr>]) = 1"
proof -
  let ?groups = "[\<lparr>group_number = 1, members = [pupil ''cy'' 3, pupil ''bob'' 1]\<rparr>,
      \<lparr>group_number = 2, members = [pupil ''ann'' 4]\<rparr>]"
  have classlist: "\<forall>file ident roster. load_classlist modelled file ident = Inr roster \<longrightarrow> distinct roster"
    by (auto simp: modelled_def example_def pupil_def)
  have holds: "\<forall>studs gsize policy c. Course modelled studs gsize policy = Inr c \<longrightarrow> students c = studs"
    by (auto simp: modelled_def example_def)
  have partitioner: "make_initial_groups modelled = spec_make_initial_groups True no_strength"
    by (simp add: modelled_def)
  have engine: "\<forall>rules gs studs ok gs' studs'.
      apply_rules_list modelled rules gs studs = Inr (ok, gs', studs') \<longrightarrow> moves gs gs' \<and> studs' = studs"
    by (auto simp: modelled_def moves_swap_heads)
  from returned_groups_partition_roster[OF modelled_run classlist holds partitioner engine]
  obtain st0 where e: "enforce modelled ''deck'' = Inr st0" and
    total: "sum_list (map (\<lambda>g. length (members g)) ?groups) =
      length (filter (\<lambda>s. \<not> is_phantom (st_identifier st0) s) (st_students st0))" and
    once: "\<forall>s\<in>set (st_students st0). \<not> is_phantom (st_identifier st0) s \<longrightarrow>
      length (filter (\<lambda>g. s \<in> set (members g)) ?groups) = 1 \<and>
      count_list (concat (map members ?groups)) s = 1"
    by blast
  from e have st0: "st0 = modelled_enforced"
    by (simp only: modelled_enforce sum.inject)
  have three: "length (filter (\<lambda>s. \<not> is_phantom (st_identifier st0) s) (st_students st0)) = 3"
    by (simp add: st0 modelled_enforced_def is_phantom_def pupil_def)
  have ann: "pupil ''ann'' 4 \<in> set (st_students st0)" "\<not> is_phantom (st_identifier st0) (pupil ''ann'' 4)"
    by (simp_all add: st0 modelled_enforced_def is_phantom_def pupil_def)
  from once ann have "length (filter (\<lambda>g. pupil ''ann'' 4 \<in> set (members g)) ?groups) = 1"
    by blast
  with modelled_run total three show ?thesis
    by (simp only: simp_thms)
qed

section \<open>The iterator of Balance rules and the group summaries\<close>

text \<open>
  C10. \<^verbatim>\<open>balance_rules\<close> is a lazy iterator over the user's rules (Python 3), and
  the partitioner, as the spec describes it, visits every Balance rule when it seeds the
  groups. So the iterator is exhausted when \<^verbatim>\<open>make_initial_groups\<close> returns, the
  loop of line 140 draws nothing, and no group summary of the statistics report holds a
  Balance mean item, however many Balance rules the deck has.
\<close>

theorem group_summaries_have_no_mean_items:
  assumes returned: "run_groups E input_deck = Inr st"
    and partitioner: "make_initial_groups E = spec_make_initial_groups round_up strength"
  shows "st_balance_rules st = [] \<and>
         (\<forall>summary\<in>set (summaries E st). \<forall>item\<in>set (snd summary). \<not> is_Mean_item item)"
proof -
  from run_groups_balance_rules[OF returned] obtain c user_rules groups c1 drawn where
    made: "make_initial_groups E c (filter (isinstance_Balance E) user_rules) = Inr (groups, c1, drawn)" and
    left: "st_balance_rules st = drop drawn (filter (isinstance_Balance E) user_rules)"
    by blast
  from made have "spec_make_initial_groups round_up strength c
      (filter (isinstance_Balance E) user_rules) = Inr (groups, c1, drawn)"
    by (simp only: partitioner)
  then have "drawn = length (filter (isinstance_Balance E) user_rules)"
    by (rule spec_groups_hold_padded_roster(3))
  with left have exhausted: "st_balance_rules st = []"
    by simp
  moreover have "\<forall>summary\<in>set (summaries E st). \<forall>item\<in>set (snd summary). \<not> is_Mean_item item"
    using group_summaries_exhausted[of "check E (st_course st)" "st_rules st" "st_groups st"]
    by (simp add: summaries_def exhausted)
  ultimately show ?thesis by (rule conjI)
qed

theorem group_summaries_have_no_mean_items_witness:
  "length (filter example_is_Balance (tl (st_rules modelled_returned))) = 2 \<and>
   st_balance_rules modelled_returned = [] \<and>
   list_all (\<lambda>summary. list_all (\<lambda>item. \<not> is_Mean_item item) (snd summary))
     (summaries modelled modelled_returned)"
proof -
  have partitioner: "make_initial_groups modelled = spec_make_initial_groups True no_strength"
    by (simp add: modelled_def)
  have two: "length (filter example_is_Balance (tl (st_rules modelled_returned))) = 2"
    by (simp add: modelled_returned_def modelled_enforced_def)
  from group_summaries_have_no_mean_items[OF modelled_run_groups partitioner] two
  show ?thesis
    unfolding list_all_iff by blast
qed

end
